theory Spec2Isabelle
  imports Complex_Main "HOL-Library.AList" "HOL-Library.Sublist"
begin

section \<open>Errors and source locations\<close>

text \<open>
  A source location is a file name with a line and a column. The parser raises
  \<open>ParseError\<close> through \<open>abort(msg, loc)\<close>; \<open>commands/parse.py\<close> prints
  \<open>e.loc\<close> for a \<open>ParseError\<close> and only the message for every other error of
  the package. \<open>RuntimeError\<close>, \<open>IndexError\<close>, \<open>ValueError\<close> and
  \<open>AttributeError\<close> are the Python built-ins, which carry no location.
\<close>

type_synonym loc = "string \<times> nat \<times> nat"

datatype error =
    ParseError string loc
  | RuntimeError string
  | IndexError
  | ValueError
  | AttributeError

fun error_loc :: "error \<Rightarrow> loc option" where
  "error_loc (ParseError msg l) = Some l"
| "error_loc _ = None"

text \<open>
  Modelled from the spec: \<open>abort\<close> of the entity base class is not among the sources;
  the spec (sections 7 and 9) describes it as raising the location-carrying parse error
  from any depth, and the unit test of \<open>normalize\<close> expects \<open>ParseError\<close>.
\<close>

definition abort :: "string \<Rightarrow> loc \<Rightarrow> error + 'a" where
  "abort msg l = Inl (ParseError msg l)"

section \<open>Located document nodes and \<open>CapabilityDefinition.normalize\<close>\<close>

text \<open>
  A document node holds a value (a string, an ordered mapping keyed by nodes, a sequence
  or another scalar) and a location.
\<close>

datatype yaml_value =
    YStr string
  | YDict "(yaml_node \<times> yaml_node) list"
  | YSeq "yaml_node list"
  | YInt int
  | YFloat real
  | YBool bool
  | YNull
and yaml_node = Node (nvalue: yaml_value) (nloc: loc)

fun isinstance_str :: "yaml_value \<Rightarrow> bool" where
  "isinstance_str (YStr s) = True"
| "isinstance_str _ = False"

fun isinstance_dict :: "yaml_value \<Rightarrow> bool" where
  "isinstance_dict (YDict d) = True"
| "isinstance_dict _ = False"

text \<open>
  \<open>normalize\<close> of \<open>capability_definition.py\<close>. The nodes it creates, \<open>Node("type")\<close>
  and \<open>Node({...})\<close>, are built without a location argument; \<open>dl\<close> is the location
  the node class gives them.
\<close>

definition normalize_capability :: "loc \<Rightarrow> yaml_node \<Rightarrow> error + yaml_node" where
  "normalize_capability dl yaml_node =
     (if \<not> (isinstance_str (nvalue yaml_node) \<or> isinstance_dict (nvalue yaml_node))
      then abort ''Expected string or map.'' (nloc yaml_node)
      else if isinstance_str (nvalue yaml_node)
      then Inr (Node (YDict [(Node (YStr ''type'') dl, yaml_node)]) dl)
      else Inr yaml_node)"

text \<open>Applying \<open>normalize\<close> to the result of an earlier call, errors passed on.\<close>

definition normalize_twice :: "loc \<Rightarrow> yaml_node \<Rightarrow> error + yaml_node" where
  "normalize_twice dl n = (case normalize_capability dl n of Inl e \<Rightarrow> Inl e | Inr m \<Rightarrow> normalize_capability dl m)"

section \<open>Template objects and Python dictionaries\<close>

text \<open>
  A Python \<open>dict\<close> keeps its keys in insertion order, and the loops of
  \<open>policy_definition.py\<close> depend on that order, so a dictionary is an association
  list whose keys are distinct. \<open>d[k] = v\<close> is \<open>AList.update k v d\<close>: it replaces the
  value in place when \<open>k\<close> is present and appends the pair otherwise.

  Of the template classes \<open>Node\<close>, \<open>Interface\<close> and \<open>Operation\<close> only the fields
  that the policy code reads are kept: \<open>node.types\<close>, \<open>node.interfaces\<close> and
  \<open>interface.operations\<close>. An operation is a value of the type parameter \<open>'op\<close>.
\<close>

record 'op interface =
  operations :: "(string \<times> 'op) list"

record 'op node =
  types :: "string list"
  interfaces :: "(string \<times> 'op interface) list"

text \<open>\<open>node.types[0]\<close> raises \<open>IndexError\<close> on an empty sequence.\<close>

definition first_type :: "'op node \<Rightarrow> error + string" where
  "first_type node = (case types node of [] \<Rightarrow> Inl IndexError | t # ts \<Rightarrow> Inr t)"

text \<open>
  \<open>node_name == x or node.types[0] == x\<close>: the second operand is evaluated only when
  the first is false.
\<close>

definition name_or_first_type :: "string \<Rightarrow> 'op node \<Rightarrow> string \<Rightarrow> error + bool" where
  "name_or_first_type node_name node x =
     (if node_name = x then Inr True
      else case first_type node of Inl e \<Rightarrow> Inl e | Inr t \<Rightarrow> Inr (t = x))"

section \<open>\<open>resolve_targets\<close>\<close>

text \<open>The inner loop over \<open>nodes.items()\<close> for one target name.\<close>

fun resolve_targets_nodes ::
  "string \<Rightarrow> (string \<times> 'op node) list \<Rightarrow> (string \<times> 'op node) list
     \<Rightarrow> error + (string \<times> 'op node) list" where
  "resolve_targets_nodes target_name [] resolved_targets = Inr resolved_targets"
| "resolve_targets_nodes target_name ((node_name, node) # rest) resolved_targets =
     (case name_or_first_type node_name node target_name of
        Inl e \<Rightarrow> Inl e
      | Inr b \<Rightarrow>
          resolve_targets_nodes target_name rest
            (if b then AList.update node_name node resolved_targets else resolved_targets))"

text \<open>The outer loop over \<open>targets.keys()\<close>.\<close>

fun resolve_targets_loop ::
  "string list \<Rightarrow> (string \<times> 'op node) list \<Rightarrow> (string \<times> 'op node) list
     \<Rightarrow> error + (string \<times> 'op node) list" where
  "resolve_targets_loop [] nodes resolved_targets = Inr resolved_targets"
| "resolve_targets_loop (target_name # others) nodes resolved_targets =
     (case resolve_targets_nodes target_name nodes resolved_targets of
        Inl e \<Rightarrow> Inl e
      | Inr resolved \<Rightarrow> resolve_targets_loop others nodes resolved)"

definition resolve_targets ::
  "(string \<times> 't) list \<Rightarrow> (string \<times> 'op node) list \<Rightarrow> error + (string \<times> 'op node) list" where
  "resolve_targets targets nodes =
     (if targets \<noteq> [] then resolve_targets_loop (map fst targets) nodes [] else Inr [])"

section \<open>\<open>collect_trigger_target_nodes\<close>\<close>

text \<open>
  The branch taken when a target filter is given: the loop stops at the first node whose
  name or first type is the filter's name, and the result is empty when there is none.
\<close>

fun first_filtered_node ::
  "string \<Rightarrow> (string \<times> 'op node) list \<Rightarrow> error + (string \<times> 'op node) list" where
  "first_filtered_node x [] = Inr []"
| "first_filtered_node x ((node_name, node) # rest) =
     (case name_or_first_type node_name node x of
        Inl e \<Rightarrow> Inl e
      | Inr b \<Rightarrow> if b then Inr (AList.update node_name node []) else first_filtered_node x rest)"

text \<open>
  The branch for policy targets. \<open>policy_target_name in (node_name, node.types[0])\<close>
  builds the pair before it compares, so \<open>node.types[0]\<close> is read for every target.
\<close>

fun targets_of_node ::
  "string \<Rightarrow> 'op node \<Rightarrow> string list \<Rightarrow> (string \<times> 'op node) list
     \<Rightarrow> error + (string \<times> 'op node) list" where
  "targets_of_node node_name node [] targeted_nodes = Inr targeted_nodes"
| "targets_of_node node_name node (policy_target_name # others) targeted_nodes =
     (case first_type node of
        Inl e \<Rightarrow> Inl e
      | Inr t \<Rightarrow>
          targets_of_node node_name node others
            (if policy_target_name = node_name \<or> policy_target_name = t
             then AList.update node_name node targeted_nodes else targeted_nodes))"

fun nodes_of_targets ::
  "(string \<times> 'op node) list \<Rightarrow> string list \<Rightarrow> (string \<times> 'op node) list
     \<Rightarrow> error + (string \<times> 'op node) list" where
  "nodes_of_targets [] policy_target_names targeted_nodes = Inr targeted_nodes"
| "nodes_of_targets ((node_name, node) # rest) policy_target_names targeted_nodes =
     (case targets_of_node node_name node policy_target_names targeted_nodes of
        Inl e \<Rightarrow> Inl e
      | Inr targeted \<Rightarrow> nodes_of_targets rest policy_target_names targeted)"

text \<open>
  \<open>target_filter\<close> is \<open>None\<close> or a pair of the filter's node name and the resolved
  reference; a pair is true in a condition, \<open>None\<close> and an empty dictionary are false.
\<close>

definition collect_trigger_target_nodes ::
  "(string \<times> 'r) option \<Rightarrow> (string \<times> 'op node) list \<Rightarrow> (string \<times> 't) list
     \<Rightarrow> error + (string \<times> 'op node) list" where
  "collect_trigger_target_nodes target_filter nodes policy_targets =
     (case target_filter of
        Some tf \<Rightarrow> first_filtered_node (fst tf) nodes
      | None \<Rightarrow>
          if policy_targets \<noteq> [] then nodes_of_targets nodes (map fst policy_targets) []
          else Inr nodes)"

text \<open>
  The class of the node instances is not among the sources. The spec (section 4.7) calls
  \<open>types\<close> the resolved type-inheritance list of the instance, whose first entry is its
  most-derived type, and a node template must have a type; the properties of the target
  matching are stated for nodes whose \<open>types\<close> is not empty and, as the keys of a
  dictionary are, for distinct node names.
\<close>

definition nonempty_types :: "(string \<times> 'op node) list \<Rightarrow> bool" where
  "nonempty_types nodes = list_all (\<lambda>(node_name, node). types node \<noteq> []) nodes"

definition matches_target :: "string \<Rightarrow> string \<Rightarrow> 'op node \<Rightarrow> bool" where
  "matches_target x node_name node = (x = node_name \<or> x = hd (types node))"

section \<open>\<open>collect_trigger_action_from_interfaces\<close>\<close>

text \<open>
  Modelled from the spec: the class \<open>Value\<close> is not among the sources. The spec
  (section 3) gives a value a raw payload and an is-function flag; the constructor is
  called as \<open>Value(typ, flag)\<close> and \<open>Value(typ, flag, data)\<close>, and a value built
  without the third argument carries no payload.
\<close>

datatype ('t, 'd) Value = Value (vtype: "'t option") (is_function: bool) (payload: "'d option")

text \<open>\<open>str(x)\<close> for an optional string.\<close>

fun str_of :: "string option \<Rightarrow> string" where
  "str_of None = ''None''"
| "str_of (Some s) = s"

text \<open>
  The dictionary comprehension that builds \<open>extra_inputs\<close>. The parameter \<open>ev\<close>
  stands for \<open>Value(None, True, v).eval(self, k)\<close>, which may raise.
\<close>

fun extra_inputs_loop ::
  "('v \<Rightarrow> string \<Rightarrow> error + 'w) \<Rightarrow> (string \<times> 'v) list \<Rightarrow> (string \<times> ('t, 'w) Value) list
     \<Rightarrow> error + (string \<times> ('t, 'w) Value) list" where
  "extra_inputs_loop ev [] extra = Inr extra"
| "extra_inputs_loop ev ((k, v) # rest) extra =
     (case ev v k of
        Inl e \<Rightarrow> Inl e
      | Inr x \<Rightarrow> extra_inputs_loop ev rest (AList.update k (Value None True (Some x)) extra))"

text \<open>
  \<open>inputs\<close> is declared a dictionary, but the caller passes \<open>None\<close> when the extended
  notation has no \<open>inputs\<close> key; \<open>inputs.items()\<close> then raises \<open>AttributeError\<close>.
\<close>

definition extra_inputs ::
  "('v \<Rightarrow> string \<Rightarrow> error + 'w) \<Rightarrow> (string \<times> 'v) list option
     \<Rightarrow> error + (string \<times> ('t, 'w) Value) list" where
  "extra_inputs ev inputs =
     (case inputs of None \<Rightarrow> Inl AttributeError | Some items \<Rightarrow> extra_inputs_loop ev items [])"

type_synonym ('op, 't, 'w) action = "string \<times> string \<times> 'op \<times> (string \<times> ('t, 'w) Value) list"

text \<open>
  The three nested loops carry the pair of \<open>collected_action\<close> and \<open>actions_found\<close>.
  The \<open>break\<close> leaves the loop over the operations of one interface only; the loops
  over the interfaces and over the nodes go on.
\<close>

fun operations_loop ::
  "('v \<Rightarrow> string \<Rightarrow> error + 'w) \<Rightarrow> (string \<times> 'v) list option \<Rightarrow> string \<Rightarrow> string
     \<Rightarrow> (string \<times> 'op) list \<Rightarrow> ('op, 't, 'w) action option \<times> nat
     \<Rightarrow> error + (('op, 't, 'w) action option \<times> nat)" where
  "operations_loop ev inputs call_name interface_name [] st = Inr st"
| "operations_loop ev inputs call_name interface_name ((operation_name, operation) # rest) st =
     (if interface_name @ ''.'' @ operation_name = call_name
      then (case extra_inputs ev inputs of
              Inl e \<Rightarrow> Inl e
            | Inr extra \<Rightarrow>
                Inr (Some (interface_name, operation_name, operation, extra), snd st + 1))
      else operations_loop ev inputs call_name interface_name rest st)"

fun interfaces_loop ::
  "('v \<Rightarrow> string \<Rightarrow> error + 'w) \<Rightarrow> (string \<times> 'v) list option \<Rightarrow> string
     \<Rightarrow> (string \<times> 'op interface) list \<Rightarrow> ('op, 't, 'w) action option \<times> nat
     \<Rightarrow> error + (('op, 't, 'w) action option \<times> nat)" where
  "interfaces_loop ev inputs call_name [] st = Inr st"
| "interfaces_loop ev inputs call_name ((interface_name, interface) # rest) st =
     (case operations_loop ev inputs call_name interface_name (operations interface) st of
        Inl e \<Rightarrow> Inl e
      | Inr st' \<Rightarrow> interfaces_loop ev inputs call_name rest st')"

fun target_nodes_loop ::
  "('v \<Rightarrow> string \<Rightarrow> error + 'w) \<Rightarrow> (string \<times> 'v) list option \<Rightarrow> string
     \<Rightarrow> (string \<times> 'op node) list \<Rightarrow> ('op, 't, 'w) action option \<times> nat
     \<Rightarrow> error + (('op, 't, 'w) action option \<times> nat)" where
  "target_nodes_loop ev inputs call_name [] st = Inr st"
| "target_nodes_loop ev inputs call_name ((node_name, target_node) # rest) st =
     (case interfaces_loop ev inputs call_name (interfaces target_node) st of
        Inl e \<Rightarrow> Inl e
      | Inr st' \<Rightarrow> target_nodes_loop ev inputs call_name rest st')"

definition action_not_found :: "string option \<Rightarrow> string" where
  "action_not_found call_operation_name =
     ''Trigger action: '' @ str_of call_operation_name
     @ '' from call_operation does not belong to any node interface. ''
     @ ''Make sure that you have referenced it correctly (as <interface_sub_name>.<operation_sub_name>, where ''
     @ ''interface_sub_name is the interface name and the operation_sub_name is the name of the operation ''
     @ ''within this interface). The node that you're targeting with interface operation also has to be used ''
     @ ''in topology_template/node_templates section''"

text \<open>
  \<open>loc\<close> is \<open>self.loc\<close>. The parameter \<open>action\<close> of the source is not read by its
  body and is left out.
\<close>

definition collect_trigger_action_from_interfaces ::
  "('v \<Rightarrow> string \<Rightarrow> error + 'w) \<Rightarrow> loc \<Rightarrow> (string \<times> 'op node) list \<Rightarrow> string option
     \<Rightarrow> (string \<times> 'v) list option \<Rightarrow> error + ('op, 't, 'w) action option" where
  "collect_trigger_action_from_interfaces ev loc targeted_nodes call_operation_name inputs =
     (case target_nodes_loop ev inputs (str_of call_operation_name) targeted_nodes (None, 0) of
        Inl e \<Rightarrow> Inl e
      | Inr (collected_action, actions_found) \<Rightarrow>
          if actions_found = 0 then abort (action_not_found call_operation_name) loc
          else Inr collected_action)"

text \<open>
  Every operation of the candidate nodes whose dotted name is \<open>call_name\<close>, in the
  order of the three loops.
\<close>

definition matching_operations ::
  "(string \<times> 'op node) list \<Rightarrow> string \<Rightarrow> (string \<times> string \<times> 'op) list" where
  "matching_operations targeted_nodes call_name =
     [(interface_name, operation_name, operation).
        (node_name, target_node) \<leftarrow> targeted_nodes,
        (interface_name, interface) \<leftarrow> interfaces target_node,
        (operation_name, operation) \<leftarrow> operations interface,
        interface_name @ ''.'' @ operation_name = call_name]"

definition distinct_operations :: "(string \<times> 'op node) list \<Rightarrow> bool" where
  "distinct_operations targeted_nodes =
     list_all (\<lambda>(node_name, target_node).
       list_all (\<lambda>(interface_name, interface). distinct (map fst (operations interface)))
         (interfaces target_node)) targeted_nodes"

definition with_extra ::
  "string \<times> string \<times> 'op \<Rightarrow> (string \<times> ('t, 'w) Value) list \<Rightarrow> ('op, 't, 'w) action" where
  "with_extra m extra = (case m of (interface_name, operation_name, operation) \<Rightarrow>
     (interface_name, operation_name, operation, extra))"

text \<open>
  A value that is not a function evaluates to its raw payload (spec, section 4.5); this
  evaluator is used for concrete inputs.
\<close>

definition eval_literal :: "'v \<Rightarrow> string \<Rightarrow> error + 'v" where
  "eval_literal v k = Inr v"

text \<open>
  The state of the loops after the operations \<open>ms\<close> have matched, in this order: each
  match evaluates the inputs, overwrites \<open>collected_action\<close> and adds one to
  \<open>actions_found\<close>.
\<close>

definition after_matches ::
  "('v \<Rightarrow> string \<Rightarrow> error + 'w) \<Rightarrow> (string \<times> 'v) list option \<Rightarrow> (string \<times> string \<times> 'op) list
     \<Rightarrow> ('op, 't, 'w) action option \<times> nat \<Rightarrow> error + (('op, 't, 'w) action option \<times> nat)" where
  "after_matches ev inputs ms st =
     (if ms = [] then Inr st
      else case extra_inputs ev inputs of
             Inl e \<Rightarrow> Inl e
           | Inr extra \<Rightarrow> Inr (Some (with_extra (last ms) extra), snd st + length ms))"


section \<open>\<open>get_property\<close>\<close>





section \<open>\<open>AttributeDefinition.get_value\<close>\<close>

text \<open>
  An entity is the dictionary of its parsed attributes: \<open>"default" in self\<close> tests the
  key and \<open>self.default\<close> reads it. \<open>default_get_value\<close> stands for the \<open>get_value\<close>
  of the parsed \<open>default\<close> attribute, which belongs to the opaque descriptor.
\<close>

definition get_value ::
  "('a \<Rightarrow> 't option \<Rightarrow> ('t, 'd) Value) \<Rightarrow> (string \<times> 'a) list \<Rightarrow> 't option \<Rightarrow> ('t, 'd) Value" where
  "get_value default_get_value self typ =
     (case map_of self ''default'' of
        Some d \<Rightarrow> default_get_value d typ
      | None \<Rightarrow> Value typ False None)"

section \<open>\<open>parse\<close>, \<open>parse_csar\<close> and \<open>parse_service_template\<close>\<close>

text \<open>
  The file system, the archive classes, \<open>tosca.load\<close> and \<open>get_template\<close> are outside
  the sources; they are the fields of a record of collaborators. \<open>get_entrypoint\<close> has an
  optional result (spec, section 6). A Python function that ends without \<open>return\<close>
  returns \<open>None\<close>: the result of \<open>parse\<close> is an optional topology.
\<close>

record ('path, 'csar, 'ast, 'inputs, 'topology) collaborators =
  is_zipfile :: "'path \<Rightarrow> bool"
  is_dir :: "'path \<Rightarrow> bool"
  create :: "'path \<Rightarrow> error + 'csar"
  validate_csar :: "'csar \<Rightarrow> error + unit"
  get_entrypoint :: "'csar \<Rightarrow> error + 'path option"
  is_dir_csar :: "'csar \<Rightarrow> bool"
  temporary_directory :: "'path"
  unpackage_csar :: "'csar \<Rightarrow> 'path \<Rightarrow> error + unit"
  load :: "'path \<Rightarrow> 'path \<Rightarrow> error + 'ast"
  get_template :: "'ast \<Rightarrow> 'inputs \<Rightarrow> error + 'topology"
  parent :: "'path \<Rightarrow> 'path"
  path_name :: "'path \<Rightarrow> 'path"
  empty_inputs :: "'inputs"

definition load_and_build ::
  "('path, 'csar, 'ast, 'inputs, 'topology) collaborators \<Rightarrow> 'path \<Rightarrow> 'path \<Rightarrow> 'inputs
     \<Rightarrow> error + 'topology option" where
  "load_and_build c workdir entrypoint inputs =
     (case load c workdir entrypoint of
        Inl e \<Rightarrow> Inl e
      | Inr ast \<Rightarrow> (case get_template c ast inputs of Inl e \<Rightarrow> Inl e | Inr t \<Rightarrow> Inr (Some t)))"

definition parse_csar ::
  "('path, 'csar, 'ast, 'inputs, 'topology) collaborators \<Rightarrow> 'path \<Rightarrow> 'inputs option
     \<Rightarrow> error + 'topology option" where
  "parse_csar c csar_path inputs_opt =
     (let inputs = (case inputs_opt of None \<Rightarrow> empty_inputs c | Some i \<Rightarrow> i) in
      case create c csar_path of
        Inl e \<Rightarrow> Inl e
      | Inr csar \<Rightarrow>
          (case validate_csar c csar of
             Inl e \<Rightarrow> Inl e
           | Inr u \<Rightarrow>
               (case get_entrypoint c csar of
                  Inl e \<Rightarrow> Inl e
                | Inr None \<Rightarrow> Inr None
                | Inr (Some entrypoint) \<Rightarrow>
                    if is_dir_csar c csar then load_and_build c csar_path entrypoint inputs
                    else (case unpackage_csar c csar (temporary_directory c) of
                            Inl e \<Rightarrow> Inl e
                          | Inr u \<Rightarrow> load_and_build c (temporary_directory c) entrypoint inputs))))"

definition parse_service_template ::
  "('path, 'csar, 'ast, 'inputs, 'topology) collaborators \<Rightarrow> 'path \<Rightarrow> 'inputs option
     \<Rightarrow> error + 'topology option" where
  "parse_service_template c service_template_path inputs_opt =
     (let inputs = (case inputs_opt of None \<Rightarrow> empty_inputs c | Some i \<Rightarrow> i) in
      load_and_build c (parent c service_template_path) (path_name c service_template_path) inputs)"

definition parse ::
  "('path, 'csar, 'ast, 'inputs, 'topology) collaborators \<Rightarrow> 'path \<Rightarrow> 'inputs option
     \<Rightarrow> error + 'topology option" where
  "parse c csar_or_st_path inputs =
     (if is_zipfile c csar_or_st_path \<or> is_dir c csar_or_st_path
      then parse_csar c csar_or_st_path inputs
      else parse_service_template c csar_or_st_path inputs)"

text \<open>
  A directory archive that passes validation and has no entrypoint, with one-element
  types for everything else.
\<close>

definition archive_without_entrypoint :: "(string, unit, unit, unit, unit) collaborators" where
  "archive_without_entrypoint =
     \<lparr>is_zipfile = (\<lambda>p. False), is_dir = (\<lambda>p. True), create = (\<lambda>p. Inr ()),
      validate_csar = (\<lambda>a. Inr ()), get_entrypoint = (\<lambda>a. Inr None),
      is_dir_csar = (\<lambda>a. True), temporary_directory = ''/tmp/csar'',
      unpackage_csar = (\<lambda>a p. Inr ()), load = (\<lambda>w e. Inr ()),
      get_template = (\<lambda>a i. Inr ()), parent = (\<lambda>p. p), path_name = (\<lambda>p. p),
      empty_inputs = ()\<rparr>"

section \<open>\<open>collect_targets\<close>\<close>

text \<open>
  A parsed reference has the referenced name in \<open>data\<close> and the location of its node;
  two references to the same name differ in their location. \<open>resolve\<close> stands for
  \<open>reference.resolve_reference(service_ast)\<close>, which aborts when the name is not found.
\<close>

record reference =
  data :: string
  ref_loc :: loc

text \<open>
  \<open>{target.data: target for target in targets}\<close>; an absent \<open>targets\<close> attribute is
  the empty list.
\<close>

definition targets_by_name :: "reference list \<Rightarrow> (string \<times> reference) list" where
  "targets_by_name targets = fold (\<lambda>target d. AList.update (data target) target d) targets []"

text \<open>
  The comprehension that resolves \<open>assignments.get(name) or definition\<close> for every item
  of \<open>definitions\<close>; a reference object is true in a condition.
\<close>

fun resolve_each ::
  "(reference \<Rightarrow> error + 'e) \<Rightarrow> (string \<times> reference) list \<Rightarrow> (string \<times> reference) list
     \<Rightarrow> (string \<times> 'e) list \<Rightarrow> error + (string \<times> 'e) list" where
  "resolve_each resolve assignments [] collected = Inr collected"
| "resolve_each resolve assignments ((name, definition) # rest) collected =
     (case resolve (case map_of assignments name of Some a \<Rightarrow> a | None \<Rightarrow> definition) of
        Inl e \<Rightarrow> Inl e
      | Inr r \<Rightarrow> resolve_each resolve assignments rest (AList.update name r collected))"

text \<open>
  \<open>typ_targets\<close> is \<open>typ.get("targets", {})\<close> of the resolved policy type, or the error
  of resolving \<open>self.type\<close>; \<open>self_targets\<close> is \<open>self.get("targets", {})\<close>.
\<close>

definition collect_targets ::
  "(reference \<Rightarrow> error + 'e) \<Rightarrow> error + reference list \<Rightarrow> reference list
     \<Rightarrow> error + (string \<times> 'e) list" where
  "collect_targets resolve typ_targets self_targets =
     (case typ_targets of
        Inl e \<Rightarrow> Inl e
      | Inr type_targets \<Rightarrow>
          (let definitions = targets_by_name type_targets;
               assignments = targets_by_name self_targets;
               definitions = (if length assignments > 0 then assignments else definitions)
           in resolve_each resolve assignments definitions []))"

section \<open>\<open>collect_triggers\<close>\<close>

text \<open>
  The data of a \<open>call_operation\<close> activity: a string (short notation), a dictionary
  with optional \<open>operation\<close> and \<open>inputs\<close> (extended notation), or a value of another
  type, of which the printed type is kept. An activity definition is the ordered
  dictionary of its keys.
\<close>

datatype 'v call_operation =
    CallStr string
  | CallDict "string option" "(string \<times> 'v) list option"
  | CallOther string

record target_filter_definition =
  filter_node :: "reference option"

record ('ev, 'c, 'v) trigger_definition =
  td_event :: "'ev option"
  td_target_filter :: "target_filter_definition option"
  td_condition :: "'c option"
  td_action :: "(string \<times> 'v call_operation) list list"

text \<open>
  The fields of the template class \<open>Trigger\<close>, as the keyword arguments of its
  constructor name them, with the prefix \<open>tr\<close>.
\<close>

record ('ev, 'c, 'op, 't, 'w) trigger =
  tr_name :: string
  tr_event :: "'ev option"
  tr_target_filter :: "(string \<times> 'op node) option"
  tr_condition :: "'c option"
  tr_action :: "('op, 't, 'w) action list"

text \<open>The short and the extended notation of \<open>call_operation\<close>.\<close>

definition call_operation_name_and_inputs ::
  "loc \<Rightarrow> 'v call_operation \<Rightarrow> error + (string option \<times> (string \<times> 'v) list option)" where
  "call_operation_name_and_inputs loc call_operation =
     (case call_operation of
        CallStr s \<Rightarrow> Inr (Some s, Some [])
      | CallDict operation inputs \<Rightarrow> Inr (operation, inputs)
      | CallOther ty \<Rightarrow>
          abort (''Invalid call operation activity definition type: '' @ ty @ ''.'') loc)"

text \<open>
  The loop of \<open>collect_trigger_actions\<close>. \<open>list(action)[0]\<close> is the first key of the
  activity and raises \<open>IndexError\<close> when there is none. When the first key is
  \<open>call_operation\<close>, \<open>action.get("call_operation", None)\<close> is the value of that first
  item.
\<close>

fun collect_trigger_actions_loop ::
  "('v \<Rightarrow> string \<Rightarrow> error + 'w) \<Rightarrow> loc \<Rightarrow> (string \<times> 'v call_operation) list list
     \<Rightarrow> (string \<times> 'r) option \<Rightarrow> (string \<times> 'op node) list \<Rightarrow> (string \<times> 'e) list
     \<Rightarrow> ('op, 't, 'w) action list \<Rightarrow> error + ('op, 't, 'w) action list" where
  "collect_trigger_actions_loop ev loc [] target_filter nodes policy_targets actions = Inr actions"
| "collect_trigger_actions_loop ev loc (activity # rest) target_filter nodes policy_targets actions =
     (case activity of
        [] \<Rightarrow> Inl IndexError
      | (key, v) # others \<Rightarrow>
          if key \<noteq> ''call_operation''
          then abort (''Unsupported trigger activity definitions: '' @ key
                 @ ''. Only call_operation is supported.'') loc
          else
            (case call_operation_name_and_inputs loc v of
               Inl e \<Rightarrow> Inl e
             | Inr (call_operation_name, inputs) \<Rightarrow>
                 if call_operation_name = None \<or> call_operation_name = Some []
                 then abort ''Missing required name for call_operation activity definition.'' loc
                 else
                   (case collect_trigger_target_nodes target_filter nodes policy_targets of
                      Inl e \<Rightarrow> Inl e
                    | Inr targeted_nodes \<Rightarrow>
                        (case collect_trigger_action_from_interfaces ev loc targeted_nodes
                                call_operation_name inputs of
                           Inl e \<Rightarrow> Inl e
                         | Inr collected_action \<Rightarrow>
                             collect_trigger_actions_loop ev loc rest target_filter nodes
                               policy_targets
                               (case collected_action of
                                  Some a \<Rightarrow> actions @ [a]
                                | None \<Rightarrow> actions)))))"

definition collect_trigger_actions ::
  "('v \<Rightarrow> string \<Rightarrow> error + 'w) \<Rightarrow> loc \<Rightarrow> ('ev, 'c, 'v) trigger_definition
     \<Rightarrow> (string \<times> 'r) option \<Rightarrow> (string \<times> 'op node) list \<Rightarrow> (string \<times> 'e) list
     \<Rightarrow> error + ('op, 't, 'w) action list" where
  "collect_trigger_actions ev loc definition target_filter nodes policy_targets =
     collect_trigger_actions_loop ev loc (td_action definition) target_filter nodes policy_targets []"

text \<open>\<open>resolve_event_filter\<close>: the first node whose name or first type is the filter's name.\<close>

fun first_matching_node ::
  "string \<Rightarrow> (string \<times> 'op node) list \<Rightarrow> error + (string \<times> 'op node) option" where
  "first_matching_node x [] = Inr None"
| "first_matching_node x ((node_name, node) # rest) =
     (case name_or_first_type node_name node x of
        Inl e \<Rightarrow> Inl e
      | Inr b \<Rightarrow> if b then Inr (Some (node_name, node)) else first_matching_node x rest)"

definition resolve_event_filter ::
  "(string \<times> 'r) option \<Rightarrow> (string \<times> 'op node) list \<Rightarrow> error + (string \<times> 'op node) option" where
  "resolve_event_filter target_filter nodes =
     (case target_filter of
        None \<Rightarrow> Inr None
      | Some tf \<Rightarrow> first_matching_node (fst tf) nodes)"

text \<open>
  The merge of the inherited definitions with the assignments of the template: the names
  present in both are removed from the definitions, then the definitions are updated with
  the assignments. The order in which the duplicates are removed does not change the
  result; here it is the order of the assignments.
\<close>

definition merge_triggers ::
  "(string \<times> 'd) list \<Rightarrow> (string \<times> 'd) list \<Rightarrow> (string \<times> 'd) list" where
  "merge_triggers definitions assignments =
     (let duplicate_triggers = filter (\<lambda>k. k \<in> set (map fst definitions)) (map fst assignments);
          definitions = fold AList.delete duplicate_triggers definitions
      in fold (\<lambda>(k, v). AList.update k v) assignments definitions)"

definition filter_not_in_targets :: "string \<Rightarrow> string" where
  "filter_not_in_targets node_name =
     ''The node reference: '' @ node_name
     @ '' from policy trigger's target_filter should be also present in policy's targets.''"

text \<open>
  The target filter of one trigger definition, resolved. An entity or a reference that is
  present is true in a condition; an absent attribute is \<open>None\<close>.
\<close>

definition collect_target_filter ::
  "(reference \<Rightarrow> error + 'r) \<Rightarrow> loc \<Rightarrow> ('ev, 'c, 'v) trigger_definition
     \<Rightarrow> error + (string \<times> 'r) option" where
  "collect_target_filter resolve loc definition =
     (case td_target_filter definition of
        None \<Rightarrow> Inr None
      | Some target_filter_definitions \<Rightarrow>
          (case filter_node target_filter_definitions of
             Some target_node \<Rightarrow>
               (case resolve target_node of
                  Inl e \<Rightarrow> Inl e
                | Inr r \<Rightarrow> Inr (Some (data target_node, r)))
           | None \<Rightarrow> abort ''Cannot obtain node from target_filter.'' loc))"

text \<open>The body of the loop of \<open>collect_triggers\<close> for one trigger.\<close>

definition collect_trigger ::
  "('v \<Rightarrow> string \<Rightarrow> error + 'w) \<Rightarrow> (reference \<Rightarrow> error + 'r) \<Rightarrow> loc
     \<Rightarrow> (string \<times> 'e) list \<Rightarrow> (string \<times> 'op node) list
     \<Rightarrow> string \<Rightarrow> ('ev, 'c, 'v) trigger_definition
     \<Rightarrow> error + ('ev, 'c, 'op, 't, 'w) trigger" where
  "collect_trigger ev resolve loc policy_targets nodes trigger_name definition =
     (case collect_target_filter resolve loc definition of
        Inl e \<Rightarrow> Inl e
      | Inr target_filter \<Rightarrow>
          if target_filter \<noteq> None \<and> policy_targets \<noteq> []
             \<and> fst (the target_filter) \<notin> set (map fst policy_targets)
          then abort (filter_not_in_targets (fst (the target_filter))) loc
          else
            (case collect_trigger_actions ev loc definition target_filter nodes policy_targets of
               Inl e \<Rightarrow> Inl e
             | Inr actions \<Rightarrow>
                 (case resolve_event_filter target_filter nodes of
                    Inl e \<Rightarrow> Inl e
                  | Inr resolved \<Rightarrow>
                      Inr \<lparr>tr_name = trigger_name, tr_event = td_event definition,
                           tr_target_filter = resolved,
                           tr_condition = td_condition definition,
                           tr_action = actions\<rparr>)))"

fun collect_triggers_loop ::
  "('v \<Rightarrow> string \<Rightarrow> error + 'w) \<Rightarrow> (reference \<Rightarrow> error + 'r) \<Rightarrow> loc
     \<Rightarrow> (string \<times> 'e) list \<Rightarrow> (string \<times> 'op node) list
     \<Rightarrow> (string \<times> ('ev, 'c, 'v) trigger_definition) list
     \<Rightarrow> (string \<times> ('ev, 'c, 'op, 't, 'w) trigger) list
     \<Rightarrow> error + (string \<times> ('ev, 'c, 'op, 't, 'w) trigger) list" where
  "collect_triggers_loop ev resolve loc policy_targets nodes [] triggers = Inr triggers"
| "collect_triggers_loop ev resolve loc policy_targets nodes ((trigger_name, definition) # rest) triggers =
     (case collect_trigger ev resolve loc policy_targets nodes trigger_name definition of
        Inl e \<Rightarrow> Inl e
      | Inr trigger \<Rightarrow>
          collect_triggers_loop ev resolve loc policy_targets nodes rest
            (AList.update trigger_name trigger triggers))"

text \<open>
  \<open>typ_triggers\<close> is \<open>typ.collect_definitions("triggers", service_ast)\<close> of the resolved
  policy type, or the error raised on the way; \<open>assignments\<close> is
  \<open>self.get("triggers", {})\<close>.
\<close>

definition collect_triggers ::
  "('v \<Rightarrow> string \<Rightarrow> error + 'w) \<Rightarrow> (reference \<Rightarrow> error + 'r) \<Rightarrow> loc
     \<Rightarrow> error + (string \<times> ('ev, 'c, 'v) trigger_definition) list
     \<Rightarrow> (string \<times> ('ev, 'c, 'v) trigger_definition) list
     \<Rightarrow> (string \<times> 'e) list \<Rightarrow> (string \<times> 'op node) list
     \<Rightarrow> error + (string \<times> ('ev, 'c, 'op, 't, 'w) trigger) list" where
  "collect_triggers ev resolve loc typ_triggers assignments policy_targets nodes =
     (case typ_triggers of
        Inl e \<Rightarrow> Inl e
      | Inr definitions \<Rightarrow>
          collect_triggers_loop ev resolve loc policy_targets nodes
            (merge_triggers definitions assignments) [])"

text \<open>
  Modelled from the spec: \<open>resolve_reference\<close> is not among the sources. By section 4.4
  of the spec the name of the reference is looked up in its container, and its absence is
  a fatal error that names the missing identifier. The container is a dictionary here,
  and the message is the missing name. It is the resolver of the concrete examples.
\<close>

definition resolve_reference :: "(string \<times> 'e) list \<Rightarrow> reference \<Rightarrow> error + 'e" where
  "resolve_reference container r =
     (case map_of container (data r) of
        Some e \<Rightarrow> Inr e
      | None \<Rightarrow> abort (data r) (ref_loc r))"

section \<open>Properties\<close>

text \<open>
  C8. \<open>CapabilityDefinition.normalize\<close> maps a node whose value is the string \<open>s\<close> to
  the mapping with the single key \<open>type\<close> bound to that node, returns a mapping node as
  it is, rejects every other shape with a \<open>ParseError\<close> at the node's location, and
  normalizing an accepted node twice gives the same as normalizing it once.
\<close>

theorem normalize_shapes_idempotent:
  "(\<forall>s. nvalue n = YStr s \<longrightarrow>
      normalize_capability dl n = Inr (Node (YDict [(Node (YStr ''type'') dl, n)]) dl))
   \<and> (\<forall>d. nvalue n = YDict d \<longrightarrow> normalize_capability dl n = Inr n)
   \<and> ((\<forall>s. nvalue n \<noteq> YStr s) \<and> (\<forall>d. nvalue n \<noteq> YDict d) \<longrightarrow>
        normalize_capability dl n = Inl (ParseError ''Expected string or map.'' (nloc n))
        \<and> error_loc (ParseError ''Expected string or map.'' (nloc n)) = Some (nloc n))
   \<and> (\<forall>m. normalize_capability dl n = Inr m \<longrightarrow> normalize_twice dl n = normalize_capability dl n)"
  by (cases "nvalue n") (auto simp: normalize_capability_def normalize_twice_def abort_def)

theorem normalize_shapes_idempotent_witness:
  "normalize_capability (''f'', 0, 0) (Node (YStr ''tosca.capabilities.Node'') (''f'', 3, 7))
     = Inr (Node (YDict [(Node (YStr ''type'') (''f'', 0, 0),
                          Node (YStr ''tosca.capabilities.Node'') (''f'', 3, 7))]) (''f'', 0, 0))
   \<and> normalize_capability (''f'', 0, 0) (Node (YDict []) (''f'', 4, 1)) = Inr (Node (YDict []) (''f'', 4, 1))
   \<and> normalize_capability (''f'', 0, 0) (Node (YInt 1) (''f'', 5, 2))
        = Inl (ParseError ''Expected string or map.'' (''f'', 5, 2))
   \<and> normalize_twice (''f'', 0, 0) (Node (YStr ''tosca.capabilities.Node'') (''f'', 3, 7))
        = normalize_capability (''f'', 0, 0) (Node (YStr ''tosca.capabilities.Node'') (''f'', 3, 7))"
  using normalize_shapes_idempotent [of "Node (YStr ''tosca.capabilities.Node'') (''f'', 3, 7)" "(''f'', 0, 0)"]
        normalize_shapes_idempotent [of "Node (YDict []) (''f'', 4, 1)" "(''f'', 0, 0)"]
        normalize_shapes_idempotent [of "Node (YInt 1) (''f'', 5, 2)" "(''f'', 0, 0)"]
  by simp

subsection \<open>Target resolution\<close>

lemma first_type_nonempty:
  "types node \<noteq> [] \<Longrightarrow> first_type node = Inr (hd (types node))"
  by (cases "types node") (simp_all add: first_type_def)

lemma name_or_first_type_nonempty:
  "types node \<noteq> [] \<Longrightarrow>
   name_or_first_type node_name node x = Inr (matches_target x node_name node)"
  by (auto simp: name_or_first_type_def first_type_nonempty matches_target_def)

text \<open>With an empty \<open>types\<close> the comparison with the first type raises.\<close>

lemma resolve_targets_empty_types:
  "resolve_targets [(''NodeTypeA'', ())] [(''n1'', \<lparr>types = [], interfaces = []\<rparr> :: nat node)]
     = Inl IndexError"
  by (simp add: resolve_targets_def name_or_first_type_def first_type_def)

lemma resolve_targets_nodes_map_of:
  "nonempty_types ns \<Longrightarrow> distinct (map fst ns) \<Longrightarrow>
   \<exists>r. resolve_targets_nodes x ns acc = Inr r
     \<and> (\<forall>k. map_of r k =
           (case map_of ns k of
              Some n \<Rightarrow> if matches_target x k n then Some n else map_of acc k
            | None \<Rightarrow> map_of acc k))"
proof (induction ns arbitrary: acc)
  case Nil
  then show ?case by simp
next
  case (Cons p ns)
  obtain k n where p: "p = (k, n)" by (cases p)
  from Cons.prems have ne: "types n \<noteq> []" and rest: "nonempty_types ns"
    and dk: "k \<notin> fst ` set ns" and dn: "distinct (map fst ns)"
    by (auto simp: nonempty_types_def p)
  from dk have mk: "map_of ns k = None"
    by (simp add: map_of_eq_None_iff)
  let ?acc = "if matches_target x k n then AList.update k n acc else acc"
  from Cons.IH[OF rest dn, of ?acc]
  obtain r where r: "resolve_targets_nodes x ns ?acc = Inr r"
    and m: "\<And>k'. map_of r k' =
           (case map_of ns k' of
              Some n' \<Rightarrow> if matches_target x k' n' then Some n' else map_of ?acc k'
            | None \<Rightarrow> map_of ?acc k')" by blast
  have "resolve_targets_nodes x (p # ns) acc = Inr r"
    using r by (simp add: p name_or_first_type_nonempty[OF ne])
  moreover have "map_of r k' =
           (case map_of (p # ns) k' of
              Some n' \<Rightarrow> if matches_target x k' n' then Some n' else map_of acc k'
            | None \<Rightarrow> map_of acc k')" for k'
  proof (cases "k' = k")
    case True
    then show ?thesis using mk by (simp add: m p update_conv')
  next
    case False
    then show ?thesis by (simp add: m p update_conv' split: option.splits)
  qed
  ultimately show ?case by blast
qed

lemma resolve_targets_loop_map_of:
  "nonempty_types ns \<Longrightarrow> distinct (map fst ns) \<Longrightarrow>
   \<exists>r. resolve_targets_loop xs ns acc = Inr r
     \<and> (\<forall>k. map_of r k =
           (case map_of ns k of
              Some n \<Rightarrow> if \<exists>x\<in>set xs. matches_target x k n then Some n else map_of acc k
            | None \<Rightarrow> map_of acc k))"
proof (induction xs arbitrary: acc)
  case Nil
  then show ?case by (simp split: option.splits)
next
  case (Cons x xs)
  from resolve_targets_nodes_map_of[OF Cons.prems, of x acc]
  obtain r1 where r1: "resolve_targets_nodes x ns acc = Inr r1"
    and m1: "\<And>k. map_of r1 k =
           (case map_of ns k of
              Some n \<Rightarrow> if matches_target x k n then Some n else map_of acc k
            | None \<Rightarrow> map_of acc k)" by blast
  from Cons.IH[OF Cons.prems, of r1]
  obtain r where r: "resolve_targets_loop xs ns r1 = Inr r"
    and m: "\<And>k. map_of r k =
           (case map_of ns k of
              Some n \<Rightarrow> if \<exists>x\<in>set xs. matches_target x k n then Some n else map_of r1 k
            | None \<Rightarrow> map_of r1 k)" by blast
  show ?case
    by (auto simp: r1 r m m1 split: option.splits)
qed



text \<open>
  C3. For nodes with a type list and distinct names, \<open>resolve_targets\<close> returns a
  dictionary that binds a node's name to the node exactly when some target name equals the
  node's template name or the first entry of its \<open>types\<close>; a later entry of
  \<open>types\<close> (an ancestor type) does not make a match.
\<close>

theorem resolve_targets_match_iff:
  assumes "nonempty_types nodes" and "distinct (map fst nodes)"
  shows "\<exists>r. resolve_targets targets nodes = Inr r
     \<and> (\<forall>node_name node. map_of r node_name = Some node \<longleftrightarrow>
           map_of nodes node_name = Some node
           \<and> (\<exists>T\<in>set (map fst targets). T = node_name \<or> T = hd (types node)))"
proof (cases "targets = []")
  case True
  then show ?thesis by (simp add: resolve_targets_def)
next
  case False
  from resolve_targets_loop_map_of[OF assms, of "map fst targets" "[]"]
  obtain r where r: "resolve_targets_loop (map fst targets) nodes [] = Inr r"
    and m: "\<And>k. map_of r k =
           (case map_of nodes k of
              Some n \<Rightarrow> if \<exists>x\<in>set (map fst targets). matches_target x k n then Some n else map_of [] k
            | None \<Rightarrow> map_of [] k)" by blast
  show ?thesis
    using False by (auto simp: resolve_targets_def r m matches_target_def split: option.splits)
qed








lemma first_filtered_node_find:
  "nonempty_types ns \<Longrightarrow>
   first_filtered_node x ns =
     Inr (case find (\<lambda>(k, n). matches_target x k n) ns of None \<Rightarrow> [] | Some p \<Rightarrow> [p])"
proof (induction ns)
  case Nil
  then show ?case by simp
next
  case (Cons p ns)
  obtain k n where p: "p = (k, n)" by (cases p)
  from Cons.prems have ne: "types n \<noteq> []" and rest: "nonempty_types ns"
    by (auto simp: nonempty_types_def p)
  show ?case
    using Cons.IH[OF rest] by (simp add: p name_or_first_type_nonempty[OF ne])
qed

lemma targets_of_node_result:
  "types n \<noteq> [] \<Longrightarrow>
   targets_of_node k n ps acc =
     Inr (if \<exists>p\<in>set ps. matches_target p k n then AList.update k n acc else acc)"
  by (induction ps arbitrary: acc) (auto simp: first_type_nonempty matches_target_def)

lemma update_fresh_append:
  "k \<notin> fst ` set al \<Longrightarrow> AList.update k v al = al @ [(k, v)]"
  by (induction al) auto

lemma nodes_of_targets_filter:
  "nonempty_types ns \<Longrightarrow> distinct (map fst ns) \<Longrightarrow> fst ` set acc \<inter> fst ` set ns = {} \<Longrightarrow>
   nodes_of_targets ns ps acc =
     Inr (acc @ filter (\<lambda>(k, n). \<exists>p\<in>set ps. matches_target p k n) ns)"
proof (induction ns arbitrary: acc)
  case Nil
  then show ?case by simp
next
  case (Cons q ns)
  obtain k n where q: "q = (k, n)" by (cases q)
  from Cons.prems have ne: "types n \<noteq> []" and rest: "nonempty_types ns"
    and dk: "k \<notin> fst ` set ns" and dn: "distinct (map fst ns)"
    and ka: "k \<notin> fst ` set acc" and dis: "fst ` set acc \<inter> fst ` set ns = {}"
    by (auto simp: nonempty_types_def q)
  let ?acc = "if \<exists>p\<in>set ps. matches_target p k n then AList.update k n acc else acc"
  have dis': "fst ` set ?acc \<inter> fst ` set ns = {}"
    using dis dk by (auto simp: dom_update)
  show ?case
    using Cons.IH[OF rest dn dis'] ka
    by (simp add: q targets_of_node_result[OF ne] update_fresh_append)
qed

text \<open>
  C4. \<open>collect_trigger_target_nodes\<close> returns, with a target filter, the first node in
  the order of the node dictionary whose name or first type is the filter's name (and
  nothing when there is none); without a filter and with policy targets, every node whose
  name or first type is some policy target, in the order of the node dictionary; with
  neither, the node dictionary itself.
\<close>

theorem collect_trigger_target_nodes_cases:
  assumes "nonempty_types nodes" and "distinct (map fst nodes)"
  shows "collect_trigger_target_nodes target_filter nodes policy_targets =
     Inr (case target_filter of
            Some tf \<Rightarrow>
              (case find (\<lambda>(node_name, node). fst tf = node_name \<or> fst tf = hd (types node)) nodes of
                 None \<Rightarrow> [] | Some p \<Rightarrow> [p])
          | None \<Rightarrow>
              if policy_targets \<noteq> []
              then filter (\<lambda>(node_name, node).
                     \<exists>T\<in>set (map fst policy_targets). T = node_name \<or> T = hd (types node)) nodes
              else nodes)"
proof (cases target_filter)
  case None
  show ?thesis
    using nodes_of_targets_filter[OF assms, of "[]" "map fst policy_targets"]
    by (simp add: None collect_trigger_target_nodes_def matches_target_def)
next
  case (Some tf)
  show ?thesis
    using first_filtered_node_find[OF assms(1), of "fst tf"]
    by (simp add: Some collect_trigger_target_nodes_def matches_target_def)
qed


theorem resolve_targets_match_iff_witness:
  "nonempty_types [(''n1'', \<lparr>types = [''NodeTypeA'', ''Base''], interfaces = []\<rparr> :: nat node),
                   (''n2'', \<lparr>types = [''NodeTypeB'', ''NodeTypeA''], interfaces = []\<rparr>)]
   \<and> distinct (map fst [(''n1'', \<lparr>types = [''NodeTypeA'', ''Base''], interfaces = []\<rparr> :: nat node),
                   (''n2'', \<lparr>types = [''NodeTypeB'', ''NodeTypeA''], interfaces = []\<rparr>)])
   \<and> (\<exists>r. resolve_targets [(''NodeTypeA'', ())]
              [(''n1'', \<lparr>types = [''NodeTypeA'', ''Base''], interfaces = []\<rparr> :: nat node),
               (''n2'', \<lparr>types = [''NodeTypeB'', ''NodeTypeA''], interfaces = []\<rparr>)] = Inr r
          \<and> map_of r ''n1'' = Some \<lparr>types = [''NodeTypeA'', ''Base''], interfaces = []\<rparr>
          \<and> map_of r ''n2'' \<noteq> Some \<lparr>types = [''NodeTypeB'', ''NodeTypeA''], interfaces = []\<rparr>)"
proof -
  let ?nodes = "[(''n1'', \<lparr>types = [''NodeTypeA'', ''Base''], interfaces = []\<rparr> :: nat node),
                 (''n2'', \<lparr>types = [''NodeTypeB'', ''NodeTypeA''], interfaces = []\<rparr>)]"
  have h1: "nonempty_types ?nodes" by (simp add: nonempty_types_def)
  have h2: "distinct (map fst ?nodes)" by simp
  from resolve_targets_match_iff[OF h1 h2, of "[(''NodeTypeA'', ())]"]
  obtain r where r: "resolve_targets [(''NodeTypeA'', ())] ?nodes = Inr r"
    and m: "\<And>node_name node. map_of r node_name = Some node \<longleftrightarrow>
           map_of ?nodes node_name = Some node
           \<and> (\<exists>T\<in>set (map fst [(''NodeTypeA'', ())]). T = node_name \<or> T = hd (types node))"
    by blast
  have m1: "map_of r ''n1'' = Some \<lparr>types = [''NodeTypeA'', ''Base''], interfaces = []\<rparr>"
    by (simp add: m)
  have m2: "map_of r ''n2'' \<noteq> Some \<lparr>types = [''NodeTypeB'', ''NodeTypeA''], interfaces = []\<rparr>"
    by (simp add: m)
  from h1 h2 r m1 m2 show ?thesis by blast
qed


theorem collect_trigger_target_nodes_cases_witness:
  "nonempty_types [(''n1'', \<lparr>types = [''A''], interfaces = []\<rparr> :: nat node),
                   (''n2'', \<lparr>types = [''A''], interfaces = []\<rparr>),
                   (''n3'', \<lparr>types = [''B'', ''A''], interfaces = []\<rparr>)]
   \<and> distinct (map fst [(''n1'', \<lparr>types = [''A''], interfaces = []\<rparr> :: nat node),
                   (''n2'', \<lparr>types = [''A''], interfaces = []\<rparr>),
                   (''n3'', \<lparr>types = [''B'', ''A''], interfaces = []\<rparr>)])
   \<and> collect_trigger_target_nodes (Some (''A'', ()))
        [(''n1'', \<lparr>types = [''A''], interfaces = []\<rparr> :: nat node),
         (''n2'', \<lparr>types = [''A''], interfaces = []\<rparr>),
         (''n3'', \<lparr>types = [''B'', ''A''], interfaces = []\<rparr>)] [(''A'', ())]
      = Inr [(''n1'', \<lparr>types = [''A''], interfaces = []\<rparr>)]
   \<and> collect_trigger_target_nodes (None :: (string \<times> unit) option)
        [(''n1'', \<lparr>types = [''A''], interfaces = []\<rparr> :: nat node),
         (''n2'', \<lparr>types = [''A''], interfaces = []\<rparr>),
         (''n3'', \<lparr>types = [''B'', ''A''], interfaces = []\<rparr>)] [(''A'', ())]
      = Inr [(''n1'', \<lparr>types = [''A''], interfaces = []\<rparr>),
             (''n2'', \<lparr>types = [''A''], interfaces = []\<rparr>)]
   \<and> collect_trigger_target_nodes (None :: (string \<times> unit) option)
        [(''n1'', \<lparr>types = [''A''], interfaces = []\<rparr> :: nat node),
         (''n2'', \<lparr>types = [''A''], interfaces = []\<rparr>),
         (''n3'', \<lparr>types = [''B'', ''A''], interfaces = []\<rparr>)] ([] :: (string \<times> unit) list)
      = Inr [(''n1'', \<lparr>types = [''A''], interfaces = []\<rparr>),
             (''n2'', \<lparr>types = [''A''], interfaces = []\<rparr>),
             (''n3'', \<lparr>types = [''B'', ''A''], interfaces = []\<rparr>)]"
proof -
  let ?nodes = "[(''n1'', \<lparr>types = [''A''], interfaces = []\<rparr> :: nat node),
                 (''n2'', \<lparr>types = [''A''], interfaces = []\<rparr>),
                 (''n3'', \<lparr>types = [''B'', ''A''], interfaces = []\<rparr>)]"
  have h1: "nonempty_types ?nodes" by (simp add: nonempty_types_def)
  have h2: "distinct (map fst ?nodes)" by simp
  show ?thesis
    using h1 h2
      collect_trigger_target_nodes_cases[OF h1 h2, of "Some (''A'', ())" "[(''A'', ())]"]
      collect_trigger_target_nodes_cases[OF h1 h2, of "None :: (string \<times> unit) option" "[(''A'', ())]"]
      collect_trigger_target_nodes_cases[OF h1 h2, of "None :: (string \<times> unit) option" "[] :: (string \<times> unit) list"]
    by simp
qed

subsection \<open>Trigger actions\<close>

lemma after_matches_append:
  "(case after_matches ev inputs ms1 st of
      Inl e \<Rightarrow> Inl e | Inr st' \<Rightarrow> after_matches ev inputs ms2 st')
   = after_matches ev inputs (ms1 @ ms2) st"
  by (auto simp: after_matches_def split: sum.splits)

lemma operations_loop_matches:
  "distinct (map fst ops) \<Longrightarrow>
   operations_loop ev inputs call_name i ops st =
     after_matches ev inputs
       [(i, operation_name, operation). (operation_name, operation) \<leftarrow> ops,
          i @ ''.'' @ operation_name = call_name] st"
proof (induction ops)
  case Nil
  then show ?case by (simp add: after_matches_def)
next
  case (Cons p ops)
  obtain oname operation where p: "p = (oname, operation)" by (cases p)
  from Cons.prems have d: "distinct (map fst ops)" and fresh: "oname \<notin> fst ` set ops"
    by (auto simp: p)
  show ?case
  proof (cases "i @ ''.'' @ oname = call_name")
    case True
    have none: "[(i, operation_name, operation). (operation_name, operation) \<leftarrow> ops,
          i @ ''.'' @ operation_name = call_name] = []"
      using fresh True by (induction ops) auto
    have "[(i, operation_name, operation). (operation_name, operation) \<leftarrow> p # ops,
          i @ ''.'' @ operation_name = call_name] = [(i, oname, operation)]"
      using none True by (simp add: p)
    moreover have "operations_loop ev inputs call_name i (p # ops) st =
        after_matches ev inputs [(i, oname, operation)] st"
      using True by (simp add: p after_matches_def with_extra_def cong: sum.case_cong)
    ultimately show ?thesis by (simp only:)
  next
    case False
    then show ?thesis using Cons.IH[OF d] by (simp add: p)
  qed
qed

lemma interfaces_loop_matches:
  "list_all (\<lambda>(interface_name, interface). distinct (map fst (operations interface))) ifs \<Longrightarrow>
   interfaces_loop ev inputs call_name ifs st =
     after_matches ev inputs
       [(interface_name, operation_name, operation).
          (interface_name, interface) \<leftarrow> ifs,
          (operation_name, operation) \<leftarrow> operations interface,
          interface_name @ ''.'' @ operation_name = call_name] st"
proof (induction ifs arbitrary: st)
  case Nil
  then show ?case by (simp add: after_matches_def)
next
  case (Cons p ifs)
  obtain iname itf where p: "p = (iname, itf)" by (cases p)
  from Cons.prems have d: "distinct (map fst (operations itf))"
    and rest: "list_all (\<lambda>(interface_name, interface). distinct (map fst (operations interface))) ifs"
    by (auto simp: p)
  have "interfaces_loop ev inputs call_name (p # ifs) st =
      (case after_matches ev inputs
         [(iname, operation_name, operation). (operation_name, operation) \<leftarrow> operations itf,
            iname @ ''.'' @ operation_name = call_name] st of
         Inl e \<Rightarrow> Inl e
       | Inr st' \<Rightarrow> after_matches ev inputs
           [(interface_name, operation_name, operation).
              (interface_name, interface) \<leftarrow> ifs,
              (operation_name, operation) \<leftarrow> operations interface,
              interface_name @ ''.'' @ operation_name = call_name] st')"
    by (simp add: p operations_loop_matches[OF d] Cons.IH[OF rest] cong: sum.case_cong)
  then show ?case
    by (simp add: p after_matches_append)
qed

lemma target_nodes_loop_matches:
  "distinct_operations ns \<Longrightarrow>
   target_nodes_loop ev inputs call_name ns st =
     after_matches ev inputs (matching_operations ns call_name) st"
proof (induction ns arbitrary: st)
  case Nil
  then show ?case by (simp add: after_matches_def matching_operations_def)
next
  case (Cons p ns)
  obtain k n where p: "p = (k, n)" by (cases p)
  from Cons.prems have d: "list_all (\<lambda>(interface_name, interface). distinct (map fst (operations interface))) (interfaces n)"
    and rest: "distinct_operations ns"
    by (auto simp: p distinct_operations_def)
  have split: "matching_operations (p # ns) call_name =
     [(interface_name, operation_name, operation).
          (interface_name, interface) \<leftarrow> interfaces n,
          (operation_name, operation) \<leftarrow> operations interface,
          interface_name @ ''.'' @ operation_name = call_name] @ matching_operations ns call_name"
    by (simp add: matching_operations_def p)
  have "target_nodes_loop ev inputs call_name (p # ns) st =
      (case after_matches ev inputs
         [(interface_name, operation_name, operation).
              (interface_name, interface) \<leftarrow> interfaces n,
              (operation_name, operation) \<leftarrow> operations interface,
              interface_name @ ''.'' @ operation_name = call_name] st of
         Inl e \<Rightarrow> Inl e
       | Inr st' \<Rightarrow> after_matches ev inputs (matching_operations ns call_name) st')"
    by (simp add: p interfaces_loop_matches[OF d] Cons.IH[OF rest] cong: sum.case_cong)
  then show ?case
    by (simp only: after_matches_append split)
qed

lemma action_not_found_names:
  "sublist (str_of call_operation_name) (action_not_found call_operation_name)"
  unfolding action_not_found_def by (rule sublist_appendI)

text \<open>
  C1 (amended). When the operation names of every interface are distinct,
  \<open>collect_trigger_action_from_interfaces\<close> scans every candidate node's interfaces and
  operations for the dotted name; with no match it fails with a \<open>ParseError\<close> whose
  message names the dotted name; with one or more matches it raises what the evaluation of
  the activity's inputs raises, and otherwise returns the last match in the order of the
  loops, without any diagnostic.
\<close>

theorem collect_trigger_action_last_match:
  assumes "distinct_operations targeted_nodes"
  shows "(matching_operations targeted_nodes (str_of call_operation_name) = [] \<longrightarrow>
            collect_trigger_action_from_interfaces ev loc targeted_nodes call_operation_name inputs
              = Inl (ParseError (action_not_found call_operation_name) loc)
            \<and> sublist (str_of call_operation_name) (action_not_found call_operation_name))
       \<and> (matching_operations targeted_nodes (str_of call_operation_name) \<noteq> [] \<longrightarrow>
            collect_trigger_action_from_interfaces ev loc targeted_nodes call_operation_name inputs
              = (case extra_inputs ev inputs of
                   Inl e \<Rightarrow> Inl e
                 | Inr extra \<Rightarrow>
                     Inr (Some (with_extra
                       (last (matching_operations targeted_nodes (str_of call_operation_name))) extra))))"
  using action_not_found_names[of call_operation_name]
  by (auto simp: collect_trigger_action_from_interfaces_def target_nodes_loop_matches[OF assms]
        after_matches_def abort_def split: sum.splits)


theorem collect_trigger_action_last_match_witness:
  "distinct_operations
     [(''n1'', \<lparr>types = [''A''], interfaces = [(''Standard'', \<lparr>operations = [(''create'', ''create_n1''), (''delete'', ''delete_n1'')]\<rparr>)]\<rparr>),
      (''n2'', \<lparr>types = [''A''], interfaces = [(''Standard'', \<lparr>operations = [(''create'', ''create_n2'')]\<rparr>)]\<rparr>)]
   \<and> (collect_trigger_action_from_interfaces eval_literal (''policy.yaml'', 12, 5)
        [(''n1'', \<lparr>types = [''A''], interfaces = [(''Standard'', \<lparr>operations = [(''create'', ''create_n1''), (''delete'', ''delete_n1'')]\<rparr>)]\<rparr>),
         (''n2'', \<lparr>types = [''A''], interfaces = [(''Standard'', \<lparr>operations = [(''create'', ''create_n2'')]\<rparr>)]\<rparr>)]
        (Some ''Standard.create'') (Some [(''x'', 7::nat)]) :: error + (string, unit, nat) action option)
      = Inr (Some (''Standard'', ''create'', ''create_n2'', [(''x'', Value None True (Some 7))]))
   \<and> (collect_trigger_action_from_interfaces eval_literal (''policy.yaml'', 12, 5)
        [(''n1'', \<lparr>types = [''A''], interfaces = [(''Standard'', \<lparr>operations = [(''create'', ''create_n1''), (''delete'', ''delete_n1'')]\<rparr>)]\<rparr>),
         (''n2'', \<lparr>types = [''A''], interfaces = [(''Standard'', \<lparr>operations = [(''create'', ''create_n2'')]\<rparr>)]\<rparr>)]
        (Some ''Standard.start'') (Some [(''x'', 7::nat)]) :: error + (string, unit, nat) action option)
      = Inl (ParseError (action_not_found (Some ''Standard.start'')) (''policy.yaml'', 12, 5))"
proof -
  let ?nodes = "[(''n1'', \<lparr>types = [''A''], interfaces = [(''Standard'', \<lparr>operations = [(''create'', ''create_n1''), (''delete'', ''delete_n1'')]\<rparr>)]\<rparr>),
      (''n2'', \<lparr>types = [''A''], interfaces = [(''Standard'', \<lparr>operations = [(''create'', ''create_n2'')]\<rparr>)]\<rparr>)]"
  have h: "distinct_operations ?nodes" by (simp add: distinct_operations_def)
  have m1: "matching_operations ?nodes ''Standard.create''
      = [(''Standard'', ''create'', ''create_n1''), (''Standard'', ''create'', ''create_n2'')]"
    by (simp add: matching_operations_def)
  have m2: "matching_operations ?nodes ''Standard.start'' = []"
    by (simp add: matching_operations_def)
  have ex: "(extra_inputs eval_literal (Some [(''x'', 7::nat)]) :: error + (string \<times> (unit, nat) Value) list)
      = Inr [(''x'', Value None True (Some 7))]"
    by (simp add: extra_inputs_def eval_literal_def)
  note found = collect_trigger_action_last_match[OF h, THEN conjunct2, rule_format]
  note missing = collect_trigger_action_last_match[OF h, THEN conjunct1, rule_format, THEN conjunct1]
  have c1: "(collect_trigger_action_from_interfaces eval_literal (''policy.yaml'', 12, 5) ?nodes
        (Some ''Standard.create'') (Some [(''x'', 7::nat)]) :: error + (string, unit, nat) action option)
      = Inr (Some (''Standard'', ''create'', ''create_n2'', [(''x'', Value None True (Some 7))]))"
    by (subst found) (simp_all add: m1 ex with_extra_def)
  have c2: "(collect_trigger_action_from_interfaces eval_literal (''policy.yaml'', 12, 5) ?nodes
        (Some ''Standard.start'') (Some [(''x'', 7::nat)]) :: error + (string, unit, nat) action option)
      = Inl (ParseError (action_not_found (Some ''Standard.start'')) (''policy.yaml'', 12, 5))"
    by (rule missing) (simp add: m2)
  from h c1 c2 show ?thesis by blast
qed

text \<open>
  Two candidate nodes expose \<open>Standard.create\<close>: the result is the operation of the
  second node, not the first match.
\<close>

theorem collect_trigger_action_first_match_counterexample:
  "matching_operations
     [(''n1'', \<lparr>types = [''A''], interfaces = [(''Standard'', \<lparr>operations = [(''create'', ''create_n1'')]\<rparr>)]\<rparr>),
      (''n2'', \<lparr>types = [''A''], interfaces = [(''Standard'', \<lparr>operations = [(''create'', ''create_n2'')]\<rparr>)]\<rparr>)]
     ''Standard.create''
     = [(''Standard'', ''create'', ''create_n1''), (''Standard'', ''create'', ''create_n2'')]
   \<and> (collect_trigger_action_from_interfaces eval_literal (''policy.yaml'', 12, 5)
        [(''n1'', \<lparr>types = [''A''], interfaces = [(''Standard'', \<lparr>operations = [(''create'', ''create_n1'')]\<rparr>)]\<rparr>),
         (''n2'', \<lparr>types = [''A''], interfaces = [(''Standard'', \<lparr>operations = [(''create'', ''create_n2'')]\<rparr>)]\<rparr>)]
        (Some ''Standard.create'') (Some ([] :: (string \<times> nat) list)) :: error + (string, unit, nat) action option)
      = Inr (Some (''Standard'', ''create'', ''create_n2'', []))
   \<and> (collect_trigger_action_from_interfaces eval_literal (''policy.yaml'', 12, 5)
        [(''n1'', \<lparr>types = [''A''], interfaces = [(''Standard'', \<lparr>operations = [(''create'', ''create_n1'')]\<rparr>)]\<rparr>),
         (''n2'', \<lparr>types = [''A''], interfaces = [(''Standard'', \<lparr>operations = [(''create'', ''create_n2'')]\<rparr>)]\<rparr>)]
        (Some ''Standard.create'') (Some ([] :: (string \<times> nat) list)) :: error + (string, unit, nat) action option)
      \<noteq> Inr (Some (''Standard'', ''create'', ''create_n1'', []))"
  by (simp add: matching_operations_def collect_trigger_action_from_interfaces_def extra_inputs_def)

subsection \<open>Property lookup\<close>






subsection \<open>Attribute values\<close>

text \<open>
  C10. When the entity has a \<open>default\<close> attribute, \<open>get_value\<close> returns what the
  default's \<open>get_value\<close> returns for \<open>typ\<close>; otherwise it returns \<open>Value(typ, False)\<close>:
  a value of type \<open>typ\<close> whose flag is false and which carries no payload.
\<close>

theorem get_value_default_or_empty:
  "(\<forall>d. map_of self ''default'' = Some d \<longrightarrow>
       get_value default_get_value self typ = default_get_value d typ)
   \<and> (''default'' \<notin> set (map fst self) \<longrightarrow>
       get_value default_get_value self typ = Value typ False None
       \<and> \<not> is_function (get_value default_get_value self typ)
       \<and> vtype (get_value default_get_value self typ) = typ
       \<and> payload (get_value default_get_value self typ) = None)"
  by (auto simp: get_value_def map_of_eq_None_iff[symmetric] simp del: map_of_eq_None_iff)

theorem get_value_default_or_empty_witness:
  "map_of [(''type'', 0::nat), (''default'', 5)] ''default'' = Some 5
   \<and> get_value (\<lambda>d t. Value t True (Some d)) [(''type'', 0::nat), (''default'', 5)] (Some ''integer'')
       = Value (Some ''integer'') True (Some 5)
   \<and> ''default'' \<notin> set (map fst [(''type'', 0::nat)])
   \<and> (get_value (\<lambda>d t. Value t True (Some d)) [(''type'', 0::nat)] (Some ''integer'') :: (string, nat) Value)
       = Value (Some ''integer'') False None"
  using get_value_default_or_empty[of "[(''type'', 0::nat), (''default'', 5)]" "\<lambda>d t. Value t True (Some d)" "Some ''integer''"]
    get_value_default_or_empty[of "[(''type'', 0::nat)]" "\<lambda>d t. Value t True (Some d) :: (string, nat) Value" "Some ''integer''"]
  by simp

subsection \<open>The parse command\<close>

lemma parse_csar_None_only_without_entrypoint:
  "parse_csar c p i = Inr None \<Longrightarrow>
   \<exists>csar. create c p = Inr csar \<and> validate_csar c csar = Inr () \<and> get_entrypoint c csar = Inr None"
  by (auto simp: parse_csar_def load_and_build_def Let_def split: sum.splits option.splits if_splits)

lemma parse_service_template_not_None:
  "parse_service_template c p i \<noteq> Inr None"
  by (auto simp: parse_service_template_def load_and_build_def Let_def split: sum.splits)

lemma parse_csar_without_entrypoint:
  "create c p = Inr csar \<Longrightarrow> validate_csar c csar = Inr () \<Longrightarrow> get_entrypoint c csar = Inr None \<Longrightarrow>
   parse_csar c p i = Inr None"
  by (simp add: parse_csar_def Let_def)

text \<open>
  C7. \<open>parse\<close> is to return a complete topology or to fail. For an archive that passes
  validation and has no entrypoint, \<open>parse_csar\<close> reaches the end of its body and returns
  \<open>None\<close> without an error.
\<close>

theorem parse_returns_None_without_entrypoint:
  "parse archive_without_entrypoint ''service'' None = Inr None
   \<and> parse_csar archive_without_entrypoint ''service'' (Some ()) = Inr None"
  by (simp add: parse_def parse_csar_def archive_without_entrypoint_def)

subsection \<open>Targets and triggers of a policy\<close>

lemma targets_by_name_fold:
  "fst ` set (fold (\<lambda>target d. AList.update (data target) target d) ts acc)
     = fst ` set acc \<union> data ` set ts
   \<and> (distinct (map fst acc) \<longrightarrow>
        distinct (map fst (fold (\<lambda>target d. AList.update (data target) target d) ts acc)))"
  by (induction ts arbitrary: acc) (auto simp: dom_update distinct_update)

lemma targets_by_name_distinct: "distinct (map fst (targets_by_name ts))"
  using targets_by_name_fold[of ts "[]"] by (simp add: targets_by_name_def)

lemma targets_by_name_empty: "targets_by_name ts = [] \<longleftrightarrow> ts = []"
proof
  assume "targets_by_name ts = []"
  then have "fst ` set (targets_by_name ts) = {}" by simp
  then show "ts = []"
    using targets_by_name_fold[of ts "[]"] by (simp add: targets_by_name_def)
next
  assume "ts = []"
  then show "targets_by_name ts = []" by (simp add: targets_by_name_def)
qed

lemma resolve_each_result:
  "distinct (map fst ds) \<Longrightarrow> fst ` set acc \<inter> fst ` set ds = {} \<Longrightarrow>
   resolve_each resolve asg ds acc = Inr r \<Longrightarrow>
   map fst r = map fst acc @ map fst ds
   \<and> (\<forall>X d. (X, d) \<in> set ds \<longrightarrow>
         (\<exists>e. resolve (case map_of asg X of Some a \<Rightarrow> a | None \<Rightarrow> d) = Inr e
              \<and> map_of r X = Some e))
   \<and> (\<forall>X. X \<notin> fst ` set ds \<longrightarrow> map_of r X = map_of acc X)"
proof (induction ds arbitrary: acc)
  case Nil
  then show ?case by simp
next
  case (Cons p ds)
  obtain k d0 where p: "p = (k, d0)" by (cases p)
  let ?ref = "case map_of asg k of Some a \<Rightarrow> a | None \<Rightarrow> d0"
  from Cons.prems(3) obtain e0 where e0: "resolve ?ref = Inr e0"
    and rec: "resolve_each resolve asg ds (AList.update k e0 acc) = Inr r"
    by (auto simp: p split: sum.splits)
  from Cons.prems have dk: "k \<notin> fst ` set ds" and dd: "distinct (map fst ds)"
    and ka: "k \<notin> fst ` set acc" and dis: "fst ` set acc \<inter> fst ` set ds = {}"
    by (auto simp: p)
  have dis': "fst ` set (AList.update k e0 acc) \<inter> fst ` set ds = {}"
    using dis dk by (auto simp: dom_update)
  note IH = Cons.IH[OF dd dis' rec]
  have keys: "map fst r = map fst acc @ map fst (p # ds)"
    using IH ka by (simp add: p update_fresh_append)
  have rk: "map_of r k = Some e0"
    using IH dk by (simp add: update_conv')
  have others: "map_of r X = map_of acc X" if "X \<notin> fst ` set (p # ds)" for X
    using IH that by (simp add: p update_conv')
  have each: "\<exists>e. resolve (case map_of asg X of Some a \<Rightarrow> a | None \<Rightarrow> d) = Inr e
              \<and> map_of r X = Some e" if "(X, d) \<in> set (p # ds)" for X d
  proof (cases "(X, d) = (k, d0)")
    case True
    then show ?thesis using e0 rk by auto
  next
    case False
    with that have "(X, d) \<in> set ds" by (auto simp: p)
    with IH show ?thesis by blast
  qed
  from keys each others show ?case by blast
qed

lemma collect_targets_explicit:
  assumes "self_targets \<noteq> []"
  shows "collect_targets resolve (Inr type_targets) self_targets =
     resolve_each resolve (targets_by_name self_targets) (targets_by_name self_targets) []"
  using assms targets_by_name_empty[of self_targets]
  by (simp add: collect_targets_def Let_def)

lemma fold_delete_filter:
  "fold AList.delete ks al = filter (\<lambda>(k, v). k \<notin> set ks) al"
proof (induction ks arbitrary: al)
  case Nil
  then show ?case by simp
next
  case (Cons k ks)
  have "filter (\<lambda>(k', v). k' \<notin> set ks) (AList.delete k al)
      = filter (\<lambda>(k', v). k' \<notin> set (k # ks)) al"
    by (induction al) (auto simp: AList.delete_eq)
  with Cons show ?case by simp
qed

lemma merge_triggers_alt:
  "merge_triggers ds asg =
     fold (\<lambda>(k, v). AList.update k v) asg (filter (\<lambda>(k, v). k \<notin> fst ` set asg) ds)"
proof -
  have "filter (\<lambda>(k, v). k \<notin> set (filter (\<lambda>k. k \<in> set (map fst ds)) (map fst asg))) ds
      = filter (\<lambda>(k, v). k \<notin> fst ` set asg) ds"
    by (rule filter_cong) force+
  then show ?thesis
    by (simp add: merge_triggers_def Let_def fold_delete_filter)
qed

lemma filter_delete_assigned:
  "X \<in> fst ` set asg \<Longrightarrow>
   filter (\<lambda>(k, v). k \<notin> fst ` set asg) (AList.delete X ds)
     = filter (\<lambda>(k, v). k \<notin> fst ` set asg) ds"
  by (induction ds) (auto simp: AList.delete_eq)

lemma merge_triggers_delete:
  "X \<in> fst ` set asg \<Longrightarrow> merge_triggers (AList.delete X ds) asg = merge_triggers ds asg"
  by (simp add: merge_triggers_alt filter_delete_assigned)

lemma fold_update_map_of:
  "distinct (map fst asg) \<Longrightarrow>
   map_of (fold (\<lambda>(k, v). AList.update k v) asg al) X
     = (case map_of asg X of Some a \<Rightarrow> Some a | None \<Rightarrow> map_of al X)"
proof (induction asg arbitrary: al)
  case Nil
  then show ?case by simp
next
  case (Cons p asg)
  obtain k v where p: "p = (k, v)" by (cases p)
  from Cons.prems have dk: "k \<notin> fst ` set asg" and dd: "distinct (map fst asg)"
    by (auto simp: p)
  from dk have none: "map_of asg k = None" by (simp add: map_of_eq_None_iff)
  show ?case
    using Cons.IH[OF dd, of "AList.update k v al"] none
    by (auto simp: p update_conv' split: option.splits)
qed

lemma fold_update_distinct:
  "distinct (map fst al) \<Longrightarrow> distinct (map fst (fold (\<lambda>(k, v). AList.update k v) asg al))"
  by (induction asg arbitrary: al) (auto simp: distinct_update)

lemma merge_triggers_distinct:
  "distinct (map fst ds) \<Longrightarrow> distinct (map fst (merge_triggers ds asg))"
  by (simp add: merge_triggers_alt fold_update_distinct distinct_map_filter)

lemma merge_triggers_map_of:
  "distinct (map fst asg) \<Longrightarrow> map_of asg X = Some d \<Longrightarrow>
   map_of (merge_triggers ds asg) X = Some d"
  by (simp add: merge_triggers_alt fold_update_map_of)

lemma collect_triggers_loop_other:
  "collect_triggers_loop ev resolve loc pts nodes ds acc = Inr r \<Longrightarrow> X \<notin> fst ` set ds \<Longrightarrow>
   map_of r X = map_of acc X"
proof (induction ds arbitrary: acc)
  case Nil
  then show ?case by simp
next
  case (Cons p ds)
  obtain k d where p: "p = (k, d)" by (cases p)
  from Cons.prems(1) obtain t where
    rec: "collect_triggers_loop ev resolve loc pts nodes ds (AList.update k t acc) = Inr r"
    by (auto simp: p split: sum.splits)
  from Cons.IH[OF rec] Cons.prems(2) show ?case
    by (simp add: p update_conv')
qed

lemma collect_triggers_loop_lookup:
  "distinct (map fst ds) \<Longrightarrow>
   collect_triggers_loop ev resolve loc pts nodes ds acc = Inr r \<Longrightarrow> (X, d) \<in> set ds \<Longrightarrow>
   \<exists>t. collect_trigger ev resolve loc pts nodes X d = Inr t \<and> map_of r X = Some t"
proof (induction ds arbitrary: acc)
  case Nil
  then show ?case by simp
next
  case (Cons p ds)
  obtain k d0 where p: "p = (k, d0)" by (cases p)
  from Cons.prems(2) obtain t0 where t0: "collect_trigger ev resolve loc pts nodes k d0 = Inr t0"
    and rec: "collect_triggers_loop ev resolve loc pts nodes ds (AList.update k t0 acc) = Inr r"
    by (auto simp: p split: sum.splits)
  from Cons.prems(1) have dk: "k \<notin> fst ` set ds" and dd: "distinct (map fst ds)"
    by (auto simp: p)
  show ?case
  proof (cases "(X, d) = (k, d0)")
    case True
    have "map_of r k = Some t0"
      using collect_triggers_loop_other[OF rec dk] by (simp add: update_conv')
    with True t0 show ?thesis by auto
  next
    case False
    with Cons.prems(3) have "(X, d) \<in> set ds" by (auto simp: p)
    from Cons.IH[OF dd rec this] show ?thesis .
  qed
qed

text \<open>
  C2. Targets: when the template gives any targets, the result of \<open>collect_targets\<close> does
  not depend on the targets of the policy type, its keys are the names of the explicit
  targets, and each name is bound to the resolution of the explicit reference. Triggers:
  for a name that has an explicit assignment, the merged definition is the assignment,
  the merge and \<open>collect_triggers\<close> give the same with the inherited entry of that name
  deleted, and the trigger collected for the name is the one built from the assignment
  alone.
\<close>

theorem explicit_assignments_replace_inherited:
  "(self_targets \<noteq> [] \<longrightarrow>
      collect_targets resolve (Inr type_targets) self_targets
        = collect_targets resolve (Inr []) self_targets
      \<and> (\<forall>r. collect_targets resolve (Inr type_targets) self_targets = Inr r \<longrightarrow>
            map fst r = map fst (targets_by_name self_targets)
            \<and> (\<forall>X a. map_of (targets_by_name self_targets) X = Some a \<longrightarrow>
                  (\<exists>e. resolve a = Inr e \<and> map_of r X = Some e))))
   \<and> (distinct (map fst assignments) \<and> distinct (map fst definitions)
        \<and> map_of assignments X = Some d \<longrightarrow>
      map_of (merge_triggers definitions assignments) X = Some d
      \<and> merge_triggers (AList.delete X definitions) assignments
          = merge_triggers definitions assignments
      \<and> collect_triggers ev resolve_node loc (Inr (AList.delete X definitions)) assignments
            policy_targets nodes
          = collect_triggers ev resolve_node loc (Inr definitions) assignments policy_targets nodes
      \<and> (\<forall>triggers.
            collect_triggers ev resolve_node loc (Inr definitions) assignments policy_targets nodes
              = Inr triggers \<longrightarrow>
            (\<exists>t. collect_trigger ev resolve_node loc policy_targets nodes X d = Inr t
                 \<and> map_of triggers X = Some t)))"
proof (intro conjI impI allI)
  assume ne: "self_targets \<noteq> []"
  show "collect_targets resolve (Inr type_targets) self_targets
        = collect_targets resolve (Inr []) self_targets"
    by (simp add: collect_targets_explicit[OF ne])
  fix r assume r: "collect_targets resolve (Inr type_targets) self_targets = Inr r"
  let ?asg = "targets_by_name self_targets"
  from r have re: "resolve_each resolve ?asg ?asg [] = Inr r"
    by (simp add: collect_targets_explicit[OF ne])
  note res = resolve_each_result[OF targets_by_name_distinct _ re, simplified]
  from res show "map fst r = map fst ?asg" by simp
  fix Y a assume a: "map_of ?asg Y = Some a"
  then have "(Y, a) \<in> set ?asg" by (rule map_of_SomeD)
  with res a show "\<exists>e. resolve a = Inr e \<and> map_of r Y = Some e" by force
next
  assume h: "distinct (map fst assignments) \<and> distinct (map fst definitions)
        \<and> map_of assignments X = Some d"
  then have da: "distinct (map fst assignments)" and dd: "distinct (map fst definitions)"
    and xd: "map_of assignments X = Some d" by simp_all
  from xd have xin: "X \<in> fst ` set assignments"
    by (meson domI domIff map_of_eq_None_iff)
  show m: "map_of (merge_triggers definitions assignments) X = Some d"
    by (rule merge_triggers_map_of[OF da xd])
  show md: "merge_triggers (AList.delete X definitions) assignments
          = merge_triggers definitions assignments"
    by (rule merge_triggers_delete[OF xin])
  show "collect_triggers ev resolve_node loc (Inr (AList.delete X definitions)) assignments
            policy_targets nodes
          = collect_triggers ev resolve_node loc (Inr definitions) assignments policy_targets nodes"
    by (simp add: collect_triggers_def md)
  fix triggers
  assume "collect_triggers ev resolve_node loc (Inr definitions) assignments policy_targets nodes
              = Inr triggers"
  then have loop: "collect_triggers_loop ev resolve_node loc policy_targets nodes
      (merge_triggers definitions assignments) [] = Inr triggers"
    by (simp add: collect_triggers_def)
  from m have "(X, d) \<in> set (merge_triggers definitions assignments)" by (rule map_of_SomeD)
  from collect_triggers_loop_lookup[OF merge_triggers_distinct[OF dd] loop this]
  show "\<exists>t. collect_trigger ev resolve_node loc policy_targets nodes X d = Inr t
                 \<and> map_of triggers X = Some t" .
qed


theorem explicit_assignments_replace_inherited_witness:
  "[\<lparr>data = ''n1'', ref_loc = (''service.yaml'', 40, 9)\<rparr>] \<noteq> []
   \<and> collect_targets (resolve_reference [(''n1'', ''node n1''), (''NodeTypeA'', ''type A'')])
        (Inr [\<lparr>data = ''NodeTypeA'', ref_loc = (''types.yaml'', 7, 9)\<rparr>])
        [\<lparr>data = ''n1'', ref_loc = (''service.yaml'', 40, 9)\<rparr>]
      = Inr [(''n1'', ''node n1'')]
   \<and> distinct (map fst [(''scale'',
        \<lparr>td_event = Some ''explicit'', td_target_filter = None,
           td_condition = (None :: string option),
           td_action = ([] :: (string \<times> nat call_operation) list list)\<rparr>)])
   \<and> distinct (map fst [(''scale'',
        \<lparr>td_event = Some ''inherited'', td_target_filter = None,
           td_condition = Some ''c'',
           td_action = ([] :: (string \<times> nat call_operation) list list)\<rparr>)])
   \<and> map_of (merge_triggers
        [(''scale'',
          \<lparr>td_event = Some ''inherited'', td_target_filter = None,
             td_condition = Some ''c'',
             td_action = ([] :: (string \<times> nat call_operation) list list)\<rparr>)]
        [(''scale'',
          \<lparr>td_event = Some ''explicit'', td_target_filter = None,
             td_condition = (None :: string option),
             td_action = ([] :: (string \<times> nat call_operation) list list)\<rparr>)]) ''scale''
      = Some \<lparr>td_event = Some ''explicit'', td_target_filter = None,
             td_condition = None, td_action = []\<rparr>"
proof -
  let ?self = "[\<lparr>data = ''n1'', ref_loc = (''service.yaml'', 40, 9)\<rparr>]"
  let ?res = "resolve_reference [(''n1'', ''node n1''), (''NodeTypeA'', ''type A'')]"
  let ?inherited = "[\<lparr>data = ''NodeTypeA'', ref_loc = (''types.yaml'', 7, 9)\<rparr>]"
  let ?d = "\<lparr>td_event = Some ''explicit'', td_target_filter = None,
           td_condition = (None :: string option),
           td_action = ([] :: (string \<times> nat call_operation) list list)\<rparr>"
  let ?asg = "[(''scale'', ?d)]"
  let ?defs = "[(''scale'',
        \<lparr>td_event = Some ''inherited'', td_target_filter = None,
           td_condition = Some ''c'',
           td_action = ([] :: (string \<times> nat call_operation) list list)\<rparr>)]"
  note T = explicit_assignments_replace_inherited[where self_targets = ?self
      and resolve = ?res and type_targets = ?inherited and assignments = ?asg
      and definitions = ?defs and X = "''scale''" and d = ?d]
  have ne: "?self \<noteq> []" by simp
  have ev: "collect_targets ?res (Inr []) ?self = Inr [(''n1'', ''node n1'')]"
    by (simp add: collect_targets_def targets_by_name_def resolve_reference_def Let_def)
  from T ne have "collect_targets ?res (Inr ?inherited) ?self = collect_targets ?res (Inr []) ?self"
    by blast
  with ev have c1: "collect_targets ?res (Inr ?inherited) ?self = Inr [(''n1'', ''node n1'')]"
    by simp
  have pre: "distinct (map fst ?asg) \<and> distinct (map fst ?defs) \<and> map_of ?asg ''scale'' = Some ?d"
    by simp
  with T have c2: "map_of (merge_triggers ?defs ?asg) ''scale'' = Some ?d"
    by blast
  from ne c1 pre c2 show ?thesis by blast
qed







end
